theory Spec2Isabelle
  imports Main "HOL-Library.AList"
begin

section \<open>LiveTabs: the tab/content association model of \<^verbatim>\<open>src/LiveTabs.ts\<close>\<close>

text \<open>
  The class \<^verbatim>\<open>LiveTabs\<close> keeps an insertion-ordered \<^verbatim>\<open>Map<string, string>\<close> from tab
  ids to content ids, the id of the opened tab and an optional capacity. Its methods also
  read and write the DOM. The embedding passes the whole state explicitly: the fields of
  the class, the part of the document the class creates (the children of the navbar and
  the content panels appended to the parent element) and the signals it sends to the
  outside (\<^verbatim>\<open>alert\<close>, \<^verbatim>\<open>console.warn\<close>, \<^verbatim>\<open>console.error\<close>).

  Modelling decisions, each one where the source is not a pure function:
  \<^item> A JavaScript \<^verbatim>\<open>Map\<close> is an association list in insertion order with distinct keys.
    \<^verbatim>\<open>set\<close> is \<^const>\<open>AList.update\<close> (an existing key keeps its position, a new key goes to
    the end), \<^verbatim>\<open>delete\<close> is \<^const>\<open>AList.delete\<close>, \<^verbatim>\<open>get\<close> is \<^const>\<open>map_of\<close>,
    \<^verbatim>\<open>keys()\<close> is \<open>map fst\<close> and \<^verbatim>\<open>size\<close> is \<^const>\<open>length\<close>.
  \<^item> \<^verbatim>\<open>maxNumTabs?: number\<close> is an \<open>int option\<close>: \<open>None\<close> is \<^verbatim>\<open>undefined\<close>. Only whole
    numbers are modelled (no fraction, no NaN).
  \<^item> Strings are lists of 8-bit characters. The sanitizer keeps only the ASCII letters and
    digits, so characters outside that range matter only by being removed.
  \<^item> The document holds the parent element and what the class puts into it, in document
    order: the parent element itself, the navbar (prepended to the parent, with the id
    \<^verbatim>\<open>liveTabs-container\<close>), the children of the navbar and then the content panels
    (appended to the parent). \<^verbatim>\<open>document.getElementById\<close> finds the first element with the
    id in that order, and nothing for the empty id. An element that is removed leaves the
    document with everything below it. Other elements of the host page are not modelled.
  \<^item> The \<^verbatim>\<open>addContent\<close> callback of the host is an optional state transformer.
\<close>

subsection \<open>Strings\<close>

definition isAlnum :: "char \<Rightarrow> bool" where
  \<comment> \<open>the complement of the character class \<^verbatim>\<open>[^a-zA-Z0-9]\<close>\<close>
  "isAlnum c =
     (let n = (of_char c :: nat)
      in (48 \<le> n \<and> n \<le> 57) \<or> (65 \<le> n \<and> n \<le> 90) \<or> (97 \<le> n \<and> n \<le> 122))"

definition toLowerCaseChar :: "char \<Rightarrow> char" where
  "toLowerCaseChar c =
     (let n = (of_char c :: nat) in if 65 \<le> n \<and> n \<le> 90 then char_of (n + 32) else c)"

definition sanitizedId :: "string \<Rightarrow> string" where
  \<comment> \<open>\<^verbatim>\<open>tabTitle.replace(/[^a-zA-Z0-9]/g, '').toLowerCase()\<close>\<close>
  "sanitizedId tabTitle = map toLowerCaseChar (filter isAlnum tabTitle)"

definition tabIdOf :: "string \<Rightarrow> string" where
  \<comment> \<open>\<^verbatim>\<open>`lt-tab-${sanitizedId}`\<close>\<close>
  "tabIdOf tabTitle = ''lt-tab-'' @ sanitizedId tabTitle"

definition idContentOf :: "string \<Rightarrow> string" where
  \<comment> \<open>\<^verbatim>\<open>`${sanitizedId}-container`\<close>\<close>
  "idContentOf tabTitle = sanitizedId tabTitle @ ''-container''"

fun replaceFirst :: "string \<Rightarrow> string \<Rightarrow> string" where
  \<comment> \<open>\<^verbatim>\<open>s.replace(pat, '')\<close> with a string pattern: the first occurrence is removed\<close>
  "replaceFirst pat [] = []"
| "replaceFirst pat (c # cs) =
     (if pat \<noteq> [] \<and> take (length pat) (c # cs) = pat then drop (length pat) (c # cs)
      else c # replaceFirst pat cs)"

definition domString :: "string option \<Rightarrow> string" where
  \<comment> \<open>an \<^verbatim>\<open>undefined\<close> argument of \<^verbatim>\<open>getElementById\<close> is converted to the string "undefined"\<close>
  "domString v = (case v of None \<Rightarrow> ''undefined'' | Some x \<Rightarrow> x)"

subsection \<open>Arrays\<close>

fun indexOf :: "'a list \<Rightarrow> 'a \<Rightarrow> int" where
  "indexOf [] x = - 1"
| "indexOf (y # ys) x =
     (if y = x then 0 else (let i = indexOf ys x in if i < 0 then - 1 else i + 1))"

definition at :: "'a list \<Rightarrow> int \<Rightarrow> 'a option" where
  \<comment> \<open>\<^verbatim>\<open>xs[i]\<close>: \<^verbatim>\<open>undefined\<close> outside the array, for \<open>i = -1\<close> too\<close>
  "at xs i = (if 0 \<le> i \<and> i < int (length xs) then Some (xs ! nat i) else None)"

primrec updateFirst :: "('a \<Rightarrow> bool) \<Rightarrow> ('a \<Rightarrow> 'a) \<Rightarrow> 'a list \<Rightarrow> 'a list" where
  "updateFirst p f [] = []"
| "updateFirst p f (x # xs) = (if p x then f x # xs else x # updateFirst p f xs)"

primrec removeFirst :: "('a \<Rightarrow> bool) \<Rightarrow> 'a list \<Rightarrow> 'a list" where
  "removeFirst p [] = []"
| "removeFirst p (x # xs) = (if p x then xs else x # removeFirst p xs)"

subsection \<open>The state\<close>

record element =
  el_id :: string
  classList :: "string list"
  display :: string
  textContent :: string
  closeButton :: bool
  draggable :: bool

datatype signal = Alert string | ConsoleWarn string | ConsoleError string

record LiveTabs =
  parentDiv :: string
  navbarDiv :: "element list option"
  maxNumTabs :: "int option"
  openedId :: string
  tabContentMap :: "(string \<times> string) list"
  parentPresent :: bool
  parentElement :: element
  navbarElement :: element
  navbarAttached :: bool
  panels :: "element list"
  signals :: "signal list"

text \<open>
  \<open>navbarDiv\<close> is \<open>None\<close> when the field is \<^verbatim>\<open>undefined\<close> and otherwise holds the children
  of the navbar from left to right; \<open>navbarElement\<close> is the navbar div itself and
  \<open>navbarAttached\<close> says whether it is still a child of the parent. \<open>parentPresent\<close> says
  whether the parent element is in the document, \<open>parentElement\<close> is that element (its id
  is \<open>parentDiv\<close>) and \<open>panels\<close> are the content panels appended to it.
\<close>

record addTabParams =
  tabTitle :: string
  showCloseButton :: "bool option"
  allowDragAndDrop :: "bool option"
  addContent :: "(string \<Rightarrow> LiveTabs \<Rightarrow> LiveTabs) option"

definition navChildren :: "LiveTabs \<Rightarrow> element list" where
  \<comment> \<open>\<^verbatim>\<open>this.navbarDiv?.children || []\<close>\<close>
  "navChildren s = (case navbarDiv s of None \<Rightarrow> [] | Some cs \<Rightarrow> cs)"

definition navbarInDocument :: "LiveTabs \<Rightarrow> bool" where
  "navbarInDocument s = (navbarDiv s \<noteq> None \<and> navbarAttached s)"

definition document :: "LiveTabs \<Rightarrow> element list" where
  \<comment> \<open>the elements in document order; without the parent nothing of the class is attached\<close>
  "document s =
     (if parentPresent s
      then parentElement s
           # (if navbarInDocument s then navbarElement s # navChildren s else [])
           @ panels s
      else [])"

definition getElementById :: "LiveTabs \<Rightarrow> string \<Rightarrow> element option" where
  \<comment> \<open>an element without a non-empty id has no ID, so the empty id finds nothing\<close>
  "getElementById s i = (if i = [] then None else find (\<lambda>e. el_id e = i) (document s))"

definition modifyElementById :: "string \<Rightarrow> (element \<Rightarrow> element) \<Rightarrow> LiveTabs \<Rightarrow> LiveTabs" where
  \<comment> \<open>\<^verbatim>\<open>const e = document.getElementById(i); if (e) e.field = ...\<close>: the first element
      of \<^const>\<open>document\<close> with the id is changed\<close>
  "modifyElementById i f s =
     (if i = [] \<or> \<not> parentPresent s then s
      else if el_id (parentElement s) = i then s\<lparr>parentElement := f (parentElement s)\<rparr>
      else if navbarInDocument s \<and> el_id (navbarElement s) = i
      then s\<lparr>navbarElement := f (navbarElement s)\<rparr>
      else if navbarInDocument s \<and> list_ex (\<lambda>e. el_id e = i) (navChildren s)
      then s\<lparr>navbarDiv := map_option (updateFirst (\<lambda>e. el_id e = i) f) (navbarDiv s)\<rparr>
      else s\<lparr>panels := updateFirst (\<lambda>e. el_id e = i) f (panels s)\<rparr>)"

definition removeElementById :: "string \<Rightarrow> LiveTabs \<Rightarrow> LiveTabs" where
  \<comment> \<open>\<^verbatim>\<open>document.getElementById(i)?.remove()\<close>: the first element of \<^const>\<open>document\<close>
      with the id leaves the document; the parent takes the navbar and the panels with it,
      the navbar its children (\<^verbatim>\<open>this.navbarDiv\<close> still refers to it)\<close>
  "removeElementById i s =
     (if i = [] \<or> \<not> parentPresent s then s
      else if el_id (parentElement s) = i then s\<lparr>parentPresent := False\<rparr>
      else if navbarInDocument s \<and> el_id (navbarElement s) = i
      then s\<lparr>navbarAttached := False\<rparr>
      else if navbarInDocument s \<and> list_ex (\<lambda>e. el_id e = i) (navChildren s)
      then s\<lparr>navbarDiv := map_option (removeFirst (\<lambda>e. el_id e = i)) (navbarDiv s)\<rparr>
      else s\<lparr>panels := removeFirst (\<lambda>e. el_id e = i) (panels s)\<rparr>)"

definition classListAdd :: "string \<Rightarrow> element \<Rightarrow> element" where
  "classListAdd c e = (if c \<in> set (classList e) then e else e\<lparr>classList := classList e @ [c]\<rparr>)"

definition classListRemove :: "string \<Rightarrow> element \<Rightarrow> element" where
  "classListRemove c e = e\<lparr>classList := removeAll c (classList e)\<rparr>"

definition setDisplay :: "string \<Rightarrow> element \<Rightarrow> element" where
  "setDisplay d e = e\<lparr>display := d\<rparr>"

definition has :: "(string \<times> string) list \<Rightarrow> string \<Rightarrow> bool" where
  \<comment> \<open>\<^verbatim>\<open>Map.prototype.has\<close>\<close>
  "has m k = (k \<in> fst ` set m)"

subsection \<open>Construction\<close>

definition newLiveTabs :: "string \<Rightarrow> int option \<Rightarrow> bool \<Rightarrow> LiveTabs" where
  \<comment> \<open>the constructor followed by \<^verbatim>\<open>createNavbar\<close>; the last argument says whether the
      host page has an element with the id \<open>parent\<close> (the empty id finds none). The parent
      element starts without classes and inline display; the navbar is created with the id
      \<^verbatim>\<open>liveTabs-container\<close> and the class \<^verbatim>\<open>lt-container\<close>\<close>
  "newLiveTabs parent maxTabs found =
     (let present = (found \<and> parent \<noteq> [])
      in \<lparr>parentDiv = parent,
          navbarDiv = (if present then Some [] else None),
          maxNumTabs = maxTabs,
          openedId = [],
          tabContentMap = [],
          parentPresent = present,
          parentElement =
            \<lparr>el_id = parent, classList = [], display = [], textContent = [],
             closeButton = False, draggable = False\<rparr>,
          navbarElement =
            \<lparr>el_id = ''liveTabs-container'', classList = [''lt-container''], display = [],
             textContent = [], closeButton = False, draggable = False\<rparr>,
          navbarAttached = present,
          panels = [],
          signals =
            (if present then []
             else [ConsoleError (''Parent element with id '' @ CHR 0x22 # parent
                                 @ CHR 0x22 # '' not found.'')])\<rparr>)"

subsection \<open>Switching\<close>

definition deactivateOpened :: "LiveTabs \<Rightarrow> LiveTabs" where
  \<comment> \<open>the block \<^verbatim>\<open>if (this.openedId) { ... }\<close> of \<^verbatim>\<open>switchTab\<close>: hide the content of the
      opened tab and take the class \<^verbatim>\<open>active\<close> from its tab element\<close>
  "deactivateOpened s =
     (if openedId s \<noteq> []
      then
        let previousContentId = map_of (tabContentMap s) (openedId s);
            s0 = modifyElementById (domString previousContentId) (setDisplay ''none'') s
        in modifyElementById (openedId s) (classListRemove ''active'') s0
      else s)"

definition switchTab :: "string \<Rightarrow> LiveTabs \<Rightarrow> LiveTabs" where
  "switchTab i s =
     (if openedId s = i then s
      else
        let s1 = deactivateOpened s;
            activeContentId = map_of (tabContentMap s1) i;
            s2 = modifyElementById (domString activeContentId) (setDisplay ''block'') s1;
            s3 = modifyElementById i (classListAdd ''active'') s2
        in s3\<lparr>openedId := i\<rparr>)"

subsection \<open>Adding a tab\<close>

definition createTab :: "string \<Rightarrow> string \<Rightarrow> bool \<Rightarrow> bool \<Rightarrow> element" where
  "createTab title tabId showClose allowDnD =
     \<lparr>el_id = tabId, classList = [''lt-tab'', ''active''], display = [],
      textContent = title, closeButton = showClose, draggable = allowDnD\<rparr>"

definition createTabContent :: "string \<Rightarrow> LiveTabs \<Rightarrow> LiveTabs" where
  \<comment> \<open>\<^verbatim>\<open>document.getElementById(this.parentDiv)\<close> finds the parent element, the first
      element of the document, or nothing; \<^verbatim>\<open>parentElement?.appendChild\<close> appends the panel\<close>
  "createTabContent tabId s =
     (let tabContentDiv =
            \<lparr>el_id = replaceFirst ''lt-tab-'' tabId @ ''-container'',
             classList = [''lt-tab-content''], display = ''block'',
             textContent = [], closeButton = False, draggable = False\<rparr>
      in case getElementById s (parentDiv s) of
           None \<Rightarrow> s
         | Some parentFound \<Rightarrow> s\<lparr>panels := panels s @ [tabContentDiv]\<rparr>)"

definition maxReached :: "LiveTabs \<Rightarrow> bool" where
  \<comment> \<open>\<^verbatim>\<open>this.maxNumTabs && this.tabContentMap.size >= this.maxNumTabs\<close>: the number
      \<open>0\<close> and \<^verbatim>\<open>undefined\<close> are falsy\<close>
  "maxReached s =
     (case maxNumTabs s of
        None \<Rightarrow> False
      | Some m \<Rightarrow> m \<noteq> 0 \<and> int (length (tabContentMap s)) \<ge> m)"

definition capacityAlert :: signal where
  "capacityAlert = Alert ''Maximum number of tabs reached. Please close some tabs to continue.''"

definition addTab :: "addTabParams \<Rightarrow> LiveTabs \<Rightarrow> LiveTabs" where
  "addTab params s =
     (let showClose = (case showCloseButton params of None \<Rightarrow> True | Some b \<Rightarrow> b);
          allowDnD = (case allowDragAndDrop params of None \<Rightarrow> True | Some b \<Rightarrow> b)
      in if maxReached s then s\<lparr>signals := signals s @ [capacityAlert]\<rparr>
         else
           let tabId = tabIdOf (tabTitle params)
           in if has (tabContentMap s) tabId then switchTab tabId s
              else
                let tab = createTab (tabTitle params) tabId showClose allowDnD;
                    s1 = s\<lparr>navbarDiv := map_option (\<lambda>cs. cs @ [tab]) (navbarDiv s)\<rparr>;
                    s2 = createTabContent tabId s1;
                    idContent = idContentOf (tabTitle params);
                    s3 = s2\<lparr>tabContentMap := AList.update tabId idContent (tabContentMap s2)\<rparr>;
                    s4 = (case addContent params of None \<Rightarrow> s3 | Some cb \<Rightarrow> cb idContent s3)
                in switchTab tabId s4)"

subsection \<open>Reordering\<close>

definition rebuildOrder :: "(string \<times> string) list \<Rightarrow> string list \<Rightarrow> (string \<times> string) list" where
  \<comment> \<open>the \<^verbatim>\<open>forEach\<close> of \<^verbatim>\<open>reorderingMap\<close>: \<open>m\<close> is the previous map, \<open>ids\<close> the ids of
      the navbar's children; an id without a truthy content id is skipped\<close>
  "rebuildOrder m ids =
     foldl (\<lambda>newOrder tabId.
              case map_of m tabId of
                None \<Rightarrow> newOrder
              | Some contentId \<Rightarrow>
                  if contentId \<noteq> [] then AList.update tabId contentId newOrder else newOrder)
           [] ids"

definition reorderingMap :: "LiveTabs \<Rightarrow> LiveTabs" where
  "reorderingMap s = s\<lparr>tabContentMap := rebuildOrder (tabContentMap s) (map el_id (navChildren s))\<rparr>"

subsection \<open>Removing\<close>

definition notFoundWarning :: "string \<Rightarrow> signal" where
  "notFoundWarning idTab = ConsoleWarn (''Tab not found in the tab-content map for ID: '' @ idTab)"

definition removeTab :: "string \<Rightarrow> LiveTabs \<Rightarrow> LiveTabs" where
  "removeTab idTab s =
     (if \<not> has (tabContentMap s) idTab then s\<lparr>signals := signals s @ [notFoundWarning idTab]\<rparr>
      else
        let s1 = removeElementById idTab s;
            contentId = map_of (tabContentMap s1) idTab;
            s2 = removeElementById (domString contentId) s1;
            tabsArray = map fst (tabContentMap s2);
            s3 = s2\<lparr>tabContentMap := AList.delete idTab (tabContentMap s2)\<rparr>
        in if has (tabContentMap s3) (openedId s3) then s3
           else if length tabsArray = 0 then s3\<lparr>openedId := []\<rparr>
           else
             let removedTabIndex = indexOf tabsArray idTab;
                 nextTabIndex = (if removedTabIndex < int (length tabsArray) - 1
                                 then removedTabIndex + 1 else removedTabIndex - 1);
                 switchToTabId = at tabsArray nextTabIndex
             in (case switchToTabId of
                   None \<Rightarrow> s3
                 | Some t \<Rightarrow> if t \<noteq> [] then switchTab t s3 else s3))"

fun forEachRemoveTab :: "string list \<Rightarrow> LiveTabs \<Rightarrow> LiveTabs" where
  \<comment> \<open>\<^verbatim>\<open>Map.prototype.forEach\<close> walks the live map in insertion order and skips an entry
      deleted before it is reached; \<^verbatim>\<open>removeTab\<close> adds no entry\<close>
  "forEachRemoveTab [] s = s"
| "forEachRemoveTab (tabId # rest) s =
     forEachRemoveTab rest (if has (tabContentMap s) tabId then removeTab tabId s else s)"

definition removeAllTabs :: "LiveTabs \<Rightarrow> LiveTabs" where
  "removeAllTabs s = forEachRemoveTab (map fst (tabContentMap s)) s"

subsection \<open>Getters and setters\<close>

definition getActiveTab :: "LiveTabs \<Rightarrow> string" where
  "getActiveTab s = openedId s"

definition getAllTabs :: "LiveTabs \<Rightarrow> string list" where
  "getAllTabs s = map fst (tabContentMap s)"

definition getTabCount :: "LiveTabs \<Rightarrow> nat" where
  "getTabCount s = length (tabContentMap s)"

definition setMaxTabs :: "int \<Rightarrow> LiveTabs \<Rightarrow> LiveTabs" where
  "setMaxTabs newMax s = s\<lparr>maxNumTabs := Some newMax\<rparr>"

subsection \<open>Stores the class builds, and calls used as examples\<close>

definition wfEntry :: "string \<times> string \<Rightarrow> bool" where
  \<comment> \<open>the shape of every pair \<^verbatim>\<open>addTab\<close> stores: \<^verbatim>\<open>lt-tab-\<close> followed by the sanitized
      title, and the sanitized title followed by \<^verbatim>\<open>-container\<close>\<close>
  "wfEntry kc = (take 7 (fst kc) = ''lt-tab-'' \<and> snd kc = drop 7 (fst kc) @ ''-container'')"

definition wfStore :: "(string \<times> string) list \<Rightarrow> bool" where
  \<comment> \<open>a \<^verbatim>\<open>Map\<close> has distinct keys; its entries are those \<^verbatim>\<open>addTab\<close> stores\<close>
  "wfStore m = (distinct (map fst m) \<and> list_all wfEntry m)"

definition keepsStore :: "(string \<Rightarrow> LiveTabs \<Rightarrow> LiveTabs) option \<Rightarrow> bool" where
  \<comment> \<open>a host callback that fills the content panel and leaves the map of the class alone\<close>
  "keepsStore cb =
     (case cb of None \<Rightarrow> True | Some f \<Rightarrow> (\<forall>c t. tabContentMap (f c t) = tabContentMap t))"

definition titleOnly :: "string \<Rightarrow> addTabParams" where
  \<comment> \<open>the call \<^verbatim>\<open>addTab({tabTitle: t})\<close>\<close>
  "titleOnly t =
     \<lparr>tabTitle = t, showCloseButton = None, allowDragAndDrop = None, addContent = None\<rparr>"

definition tabsAB :: "int option \<Rightarrow> LiveTabs" where
  \<comment> \<open>two tabs added to a fresh instance; the last one, \<^verbatim>\<open>lt-tab-b\<close>, is opened\<close>
  "tabsAB maxTabs =
     addTab (titleOnly ''B'') (addTab (titleOnly ''A'')
       (newLiveTabs ''tabs-container'' maxTabs True))"

definition tabsABC :: "int option \<Rightarrow> LiveTabs" where
  \<comment> \<open>a third tab added; \<^verbatim>\<open>lt-tab-c\<close> is opened\<close>
  "tabsABC maxTabs = addTab (titleOnly ''C'') (tabsAB maxTabs)"

section \<open>Basic facts\<close>

lemma modifyElementById_fields [simp]:
  "tabContentMap (modifyElementById i f s) = tabContentMap s"
  "openedId (modifyElementById i f s) = openedId s"
  "maxNumTabs (modifyElementById i f s) = maxNumTabs s"
  "signals (modifyElementById i f s) = signals s"
  "parentPresent (modifyElementById i f s) = parentPresent s"
  "parentDiv (modifyElementById i f s) = parentDiv s"
  by (simp_all add: modifyElementById_def)

lemma removeElementById_fields [simp]:
  "tabContentMap (removeElementById i s) = tabContentMap s"
  "openedId (removeElementById i s) = openedId s"
  "maxNumTabs (removeElementById i s) = maxNumTabs s"
  "signals (removeElementById i s) = signals s"
  "parentDiv (removeElementById i s) = parentDiv s"
  by (simp_all add: removeElementById_def)

lemma navChildren_upd [simp]:
  "navChildren (s\<lparr>openedId := i\<rparr>) = navChildren s"
  "navChildren (s\<lparr>tabContentMap := m\<rparr>) = navChildren s"
  "navChildren (s\<lparr>signals := sg\<rparr>) = navChildren s"
  "navChildren (s\<lparr>panels := ps\<rparr>) = navChildren s"
  "navChildren (s\<lparr>maxNumTabs := mx\<rparr>) = navChildren s"
  "navChildren (s\<lparr>parentElement := pe\<rparr>) = navChildren s"
  "navChildren (s\<lparr>navbarElement := ne\<rparr>) = navChildren s"
  "navChildren (s\<lparr>navbarAttached := na\<rparr>) = navChildren s"
  "navChildren (s\<lparr>parentPresent := pp\<rparr>) = navChildren s"
  by (simp_all add: navChildren_def)

lemma map_el_id_updateFirst:
  "(\<And>e. el_id (f e) = el_id e) \<Longrightarrow> map el_id (updateFirst p f xs) = map el_id xs"
  by (induction xs) simp_all

lemma updateFirst_no_match:
  "\<forall>x\<in>set xs. \<not> p x \<Longrightarrow> updateFirst p f xs = xs"
  by (induction xs) simp_all

lemma modifyElementById_ids:
  assumes "\<And>e. el_id (f e) = el_id e"
  shows "map el_id (navChildren (modifyElementById i f s)) = map el_id (navChildren s)"
    and "map el_id (panels (modifyElementById i f s)) = map el_id (panels s)"
  using assms
  by (auto simp: modifyElementById_def navChildren_def map_el_id_updateFirst split: option.splits)

lemma el_id_attr [simp]:
  "el_id (setDisplay d e) = el_id e"
  "el_id (classListAdd c e) = el_id e"
  "el_id (classListRemove c e) = el_id e"
  by (simp_all add: setDisplay_def classListAdd_def classListRemove_def)

lemma modifyElementById_document_ids:
  assumes "\<And>e. el_id (f e) = el_id e"
  shows "map el_id (document (modifyElementById i f s)) = map el_id (document s)"
  using assms
  by (auto simp: modifyElementById_def document_def navbarInDocument_def navChildren_def
      map_el_id_updateFirst split: option.splits)

lemma getElementById_None_iff:
  "getElementById s i = None \<longleftrightarrow> i = [] \<or> i \<notin> set (map el_id (document s))"
  by (auto simp: getElementById_def find_None_iff)

lemma modifyElementById_absent:
  assumes "getElementById s i = None"
  shows "modifyElementById i f s = s"
proof (cases "i = [] \<or> \<not> parentPresent s")
  case True
  then show ?thesis
    by (auto simp: modifyElementById_def)
next
  case False
  with assms have no: "\<forall>e\<in>set (document s). \<not> el_id e = i"
    by (auto simp: getElementById_def find_None_iff)
  from no False have par: "el_id (parentElement s) \<noteq> i"
    and pan: "\<forall>e\<in>set (panels s). \<not> el_id e = i"
    by (auto simp: document_def)
  from no False have nav: "navbarInDocument s \<Longrightarrow> el_id (navbarElement s) \<noteq> i"
    and kids: "navbarInDocument s \<Longrightarrow> \<not> list_ex (\<lambda>e. el_id e = i) (navChildren s)"
    by (auto simp: document_def list_ex_iff)
  from pan have "updateFirst (\<lambda>e. el_id e = i) f (panels s) = panels s"
    by (rule updateFirst_no_match)
  with False par nav kids show ?thesis
    by (auto simp: modifyElementById_def)
qed

lemma deactivateOpened_fields [simp]:
  "tabContentMap (deactivateOpened s) = tabContentMap s"
  "openedId (deactivateOpened s) = openedId s"
  "maxNumTabs (deactivateOpened s) = maxNumTabs s"
  "signals (deactivateOpened s) = signals s"
  "parentPresent (deactivateOpened s) = parentPresent s"
  by (simp_all add: deactivateOpened_def Let_def)

lemma deactivateOpened_ids:
  "map el_id (navChildren (deactivateOpened s)) = map el_id (navChildren s)"
  "map el_id (panels (deactivateOpened s)) = map el_id (panels s)"
  "map el_id (document (deactivateOpened s)) = map el_id (document s)"
  by (simp_all add: deactivateOpened_def Let_def modifyElementById_ids
      modifyElementById_document_ids)

lemma switchTab_fields [simp]:
  "openedId (switchTab i s) = i"
  "tabContentMap (switchTab i s) = tabContentMap s"
  "maxNumTabs (switchTab i s) = maxNumTabs s"
  "signals (switchTab i s) = signals s"
  "parentPresent (switchTab i s) = parentPresent s"
  by (simp_all add: switchTab_def Let_def)

lemma switchTab_ids:
  "map el_id (navChildren (switchTab i s)) = map el_id (navChildren s)"
  "map el_id (panels (switchTab i s)) = map el_id (panels s)"
  by (simp_all add: switchTab_def Let_def modifyElementById_ids deactivateOpened_ids)

lemma update_fresh:
  "k \<notin> fst ` set m \<Longrightarrow> AList.update k v m = m @ [(k, v)]"
  by (induction m) auto

lemma createTabContent_fields [simp]:
  "tabContentMap (createTabContent i s) = tabContentMap s"
  "openedId (createTabContent i s) = openedId s"
  "maxNumTabs (createTabContent i s) = maxNumTabs s"
  "signals (createTabContent i s) = signals s"
  by (simp_all add: createTabContent_def Let_def split: option.splits)

section \<open>Removing an id that is not in the store\<close>

text \<open>
  Claim C8. For every id absent from the store, \<^verbatim>\<open>removeTab(id)\<close> reports the not-found
  warning and returns with no state change: the store (contents and iteration order), the
  active id and the document are as before; only the warning is added to the signals.
\<close>

theorem removeTab_not_found:
  assumes "\<not> has (tabContentMap s) idTab"
  shows "removeTab idTab s = s\<lparr>signals := signals s @ [notFoundWarning idTab]\<rparr>
       \<and> tabContentMap (removeTab idTab s) = tabContentMap s
       \<and> getAllTabs (removeTab idTab s) = getAllTabs s
       \<and> getTabCount (removeTab idTab s) = getTabCount s
       \<and> getActiveTab (removeTab idTab s) = getActiveTab s
       \<and> navbarDiv (removeTab idTab s) = navbarDiv s
       \<and> panels (removeTab idTab s) = panels s"
  using assms by (simp add: removeTab_def getAllTabs_def getTabCount_def getActiveTab_def)

theorem removeTab_not_found_witness:
  "\<not> has (tabContentMap (tabsABC None)) ''lt-tab-d''
   \<and> getAllTabs (removeTab ''lt-tab-d'' (tabsABC None)) = getAllTabs (tabsABC None)
   \<and> getActiveTab (removeTab ''lt-tab-d'' (tabsABC None)) = getActiveTab (tabsABC None)
   \<and> removeTab ''lt-tab-d'' (tabsABC None)
       = (tabsABC None)\<lparr>signals := signals (tabsABC None) @ [notFoundWarning ''lt-tab-d'']\<rparr>"
proof -
  have h: "\<not> has (tabContentMap (tabsABC None)) ''lt-tab-d''"
    by code_simp
  show ?thesis
    using h removeTab_not_found [OF h] by blast
qed

section \<open>The capacity guard of \<^verbatim>\<open>addTab\<close>\<close>

text \<open>
  Claim C3, as amended. For every state whose capacity \<^verbatim>\<open>maxNumTabs\<close> is set to a number
  other than \<open>0\<close> and whose tab count is at least that number, \<^verbatim>\<open>addTab\<close> with any
  arguments raises the capacity alert and changes nothing else: the count, the order of
  the tabs, the active id, the map and the document are unchanged.
\<close>

theorem addTab_capacity_reached:
  assumes "maxNumTabs s = Some m" and "m \<noteq> 0" and "m \<le> int (getTabCount s)"
  shows "addTab params s = s\<lparr>signals := signals s @ [capacityAlert]\<rparr>
       \<and> getTabCount (addTab params s) = getTabCount s
       \<and> getAllTabs (addTab params s) = getAllTabs s
       \<and> getActiveTab (addTab params s) = getActiveTab s
       \<and> tabContentMap (addTab params s) = tabContentMap s
       \<and> navbarDiv (addTab params s) = navbarDiv s
       \<and> panels (addTab params s) = panels s"
  using assms
  by (simp add: addTab_def maxReached_def getAllTabs_def getTabCount_def getActiveTab_def Let_def)

text \<open>
  The instance of the specification: with \<^verbatim>\<open>maxTabs = 2\<close>, after two successful calls a
  third call leaves the count at 2 and the active tab as it was.
\<close>

theorem addTab_capacity_reached_witness:
  "maxNumTabs (tabsAB (Some 2)) = Some 2 \<and> (2::int) \<noteq> 0
   \<and> 2 \<le> int (getTabCount (tabsAB (Some 2)))
   \<and> getTabCount (tabsAB (Some 2)) = 2
   \<and> getTabCount (addTab (titleOnly ''C'') (tabsAB (Some 2))) = getTabCount (tabsAB (Some 2))
   \<and> getAllTabs (addTab (titleOnly ''C'') (tabsAB (Some 2))) = getAllTabs (tabsAB (Some 2))
   \<and> getActiveTab (addTab (titleOnly ''C'') (tabsAB (Some 2))) = getActiveTab (tabsAB (Some 2))"
proof -
  have h1: "maxNumTabs (tabsAB (Some 2)) = Some 2"
    by code_simp
  have h2: "(2::int) \<noteq> 0"
    by simp
  have h3: "2 \<le> int (getTabCount (tabsAB (Some 2)))"
    by code_simp
  have c: "getTabCount (tabsAB (Some 2)) = 2"
    by code_simp
  show ?thesis
    using h1 h2 h3 c addTab_capacity_reached [OF h1 h2 h3, of "titleOnly ''C''"] by blast
qed

text \<open>
  Claim C3 as stated fails where the capacity is set to \<open>0\<close>: the guard
  \<^verbatim>\<open>this.maxNumTabs && ...\<close> reads the number \<open>0\<close> as "no limit". On a fresh instance
  built with \<^verbatim>\<open>maxNumTabs: 0\<close> the capacity is set and the count \<open>0\<close> is at least the
  capacity, yet \<^verbatim>\<open>addTab\<close> stores the tab, opens it and raises no alert.
\<close>

theorem addTab_capacity_zero_counterexample:
  "maxNumTabs (newLiveTabs ''tabs-container'' (Some 0) True) = Some 0
   \<and> int (getTabCount (newLiveTabs ''tabs-container'' (Some 0) True)) \<ge> 0
   \<and> getTabCount (newLiveTabs ''tabs-container'' (Some 0) True) = 0
   \<and> getTabCount (addTab (titleOnly ''A'') (newLiveTabs ''tabs-container'' (Some 0) True)) = 1
   \<and> getActiveTab (newLiveTabs ''tabs-container'' (Some 0) True) = []
   \<and> getActiveTab (addTab (titleOnly ''A'') (newLiveTabs ''tabs-container'' (Some 0) True))
       = ''lt-tab-a''
   \<and> signals (addTab (titleOnly ''A'') (newLiveTabs ''tabs-container'' (Some 0) True)) = []"
  by code_simp

text \<open>
  Claim C10. When the capacity is reached (\<^verbatim>\<open>maxNumTabs\<close> truthy and the count at least
  \<^verbatim>\<open>maxNumTabs\<close>), \<^verbatim>\<open>addTab\<close> with a title whose id is already in the store does not
  switch focus to that tab: the capacity check comes first, the call ends with the
  capacity alert and the active id is unchanged. The last conjunct shows what the order
  of the two checks decides: the same call on the same state without a capacity opens the
  existing tab.
\<close>

theorem addTab_capacity_before_duplicate:
  assumes "maxNumTabs s = Some m" and "m \<noteq> 0" and "m \<le> int (getTabCount s)"
    and "has (tabContentMap s) (tabIdOf (tabTitle params))"
  shows "addTab params s = s\<lparr>signals := signals s @ [capacityAlert]\<rparr>
       \<and> getActiveTab (addTab params s) = getActiveTab s
       \<and> getActiveTab (addTab params (s\<lparr>maxNumTabs := None\<rparr>)) = tabIdOf (tabTitle params)"
  using assms
  by (simp add: addTab_def maxReached_def getTabCount_def getActiveTab_def Let_def)


theorem addTab_capacity_before_duplicate_witness:
  "maxNumTabs (tabsAB (Some 2)) = Some 2 \<and> (2::int) \<noteq> 0
   \<and> 2 \<le> int (getTabCount (tabsAB (Some 2)))
   \<and> has (tabContentMap (tabsAB (Some 2))) (tabIdOf (tabTitle (titleOnly ''a!'')))
   \<and> getActiveTab (tabsAB (Some 2)) = ''lt-tab-b''
   \<and> tabIdOf (tabTitle (titleOnly ''a!'')) = ''lt-tab-a''
   \<and> getActiveTab (addTab (titleOnly ''a!'') (tabsAB (Some 2))) = getActiveTab (tabsAB (Some 2))
   \<and> addTab (titleOnly ''a!'') (tabsAB (Some 2))
       = (tabsAB (Some 2))\<lparr>signals := signals (tabsAB (Some 2)) @ [capacityAlert]\<rparr>"
proof -
  have h1: "maxNumTabs (tabsAB (Some 2)) = Some 2"
    by code_simp
  have h2: "(2::int) \<noteq> 0"
    by simp
  have h3: "2 \<le> int (getTabCount (tabsAB (Some 2)))"
    by code_simp
  have h4: "has (tabContentMap (tabsAB (Some 2))) (tabIdOf (tabTitle (titleOnly ''a!'')))"
    by code_simp
  have a: "getActiveTab (tabsAB (Some 2)) = ''lt-tab-b''"
    by code_simp
  have b: "tabIdOf (tabTitle (titleOnly ''a!'')) = ''lt-tab-a''"
    by code_simp
  show ?thesis
    using h1 h2 h3 h4 a b addTab_capacity_before_duplicate [OF h1 h2 h3 h4] by blast
qed

text \<open>
  Claim C9. A capacity of \<open>0\<close>, set at construction or by \<^verbatim>\<open>setMaxTabs(0)\<close>, is no
  limit: in every state with \<^verbatim>\<open>maxNumTabs = 0\<close>, whatever the count, \<^verbatim>\<open>addTab\<close> with a
  title whose id is not in the store appends the new tab and opens it. The host callback
  is assumed to leave the map alone.
\<close>

theorem addTab_zero_capacity_is_no_limit:
  assumes "maxNumTabs s = Some 0"
    and "\<not> has (tabContentMap s) (tabIdOf (tabTitle params))"
    and "keepsStore (addContent params)"
  shows "tabContentMap (addTab params s)
           = tabContentMap s @ [(tabIdOf (tabTitle params), idContentOf (tabTitle params))]
       \<and> getAllTabs (addTab params s) = getAllTabs s @ [tabIdOf (tabTitle params)]
       \<and> getTabCount (addTab params s) = getTabCount s + 1
       \<and> getActiveTab (addTab params s) = tabIdOf (tabTitle params)
       \<and> maxNumTabs (setMaxTabs 0 s') = Some 0
       \<and> maxNumTabs (newLiveTabs parent (Some 0) found) = Some 0"
proof -
  have nomax: "\<not> maxReached s"
    using assms(1) by (simp add: maxReached_def)
  have fresh: "tabIdOf (tabTitle params) \<notin> fst ` set (tabContentMap s)"
    using assms(2) by (simp add: has_def)
  have m: "tabContentMap (addTab params s)
           = tabContentMap s @ [(tabIdOf (tabTitle params), idContentOf (tabTitle params))]"
    using nomax assms(2,3) fresh
    by (simp add: addTab_def Let_def keepsStore_def update_fresh split: option.splits)
  have a: "getActiveTab (addTab params s) = tabIdOf (tabTitle params)"
    using nomax assms(2)
    by (simp add: addTab_def Let_def getActiveTab_def)
  show ?thesis
    using m a
    by (simp add: getAllTabs_def getTabCount_def setMaxTabs_def newLiveTabs_def Let_def)
qed


theorem addTab_zero_capacity_is_no_limit_witness:
  "maxNumTabs (setMaxTabs 0 (tabsABC None)) = Some 0
   \<and> \<not> has (tabContentMap (setMaxTabs 0 (tabsABC None))) (tabIdOf (tabTitle (titleOnly ''D'')))
   \<and> keepsStore (addContent (titleOnly ''D''))
   \<and> getTabCount (setMaxTabs 0 (tabsABC None)) = 3
   \<and> getTabCount (addTab (titleOnly ''D'') (setMaxTabs 0 (tabsABC None)))
       = getTabCount (setMaxTabs 0 (tabsABC None)) + 1
   \<and> getAllTabs (addTab (titleOnly ''D'') (setMaxTabs 0 (tabsABC None)))
       = getAllTabs (setMaxTabs 0 (tabsABC None)) @ [tabIdOf (tabTitle (titleOnly ''D''))]"
proof -
  have h1: "maxNumTabs (setMaxTabs 0 (tabsABC None)) = Some 0"
    by code_simp
  have h2: "\<not> has (tabContentMap (setMaxTabs 0 (tabsABC None))) (tabIdOf (tabTitle (titleOnly ''D'')))"
    by code_simp
  have h3: "keepsStore (addContent (titleOnly ''D''))"
    by (simp add: keepsStore_def titleOnly_def)
  have c: "getTabCount (setMaxTabs 0 (tabsABC None)) = 3"
    by code_simp
  show ?thesis
    using h1 h2 h3 c addTab_zero_capacity_is_no_limit [OF h1 h2 h3] by blast
qed

section \<open>Adding a title whose id is already stored\<close>

text \<open>
  Claim C4. Below the capacity limit, \<^verbatim>\<open>addTab\<close> with a title whose sanitized id is that of
  a stored tab is \<^verbatim>\<open>switchTab\<close> to that tab and nothing more: the map and the count are
  unchanged, and the document has the same tab elements and the same content panels (no
  new panel).
\<close>

theorem addTab_existing_focuses:
  assumes "\<not> maxReached s"
    and "has (tabContentMap s) (tabIdOf (tabTitle params))"
  shows "addTab params s = switchTab (tabIdOf (tabTitle params)) s
       \<and> getActiveTab (addTab params s) = tabIdOf (tabTitle params)
       \<and> tabContentMap (addTab params s) = tabContentMap s
       \<and> getTabCount (addTab params s) = getTabCount s
       \<and> map el_id (panels (addTab params s)) = map el_id (panels s)
       \<and> map el_id (navChildren (addTab params s)) = map el_id (navChildren s)
       \<and> signals (addTab params s) = signals s"
proof -
  have "addTab params s = switchTab (tabIdOf (tabTitle params)) s"
    using assms by (simp add: addTab_def Let_def)
  then show ?thesis
    by (simp add: getActiveTab_def getTabCount_def switchTab_ids)
qed


text \<open>
  The instance of the specification: after \<^verbatim>\<open>addTab({tabTitle: 'Tab 1'})\<close> the call
  \<^verbatim>\<open>addTab({tabTitle: 'tab 1!!'})\<close> finds the same id; one tab is stored.
\<close>

theorem addTab_existing_focuses_witness:
  "\<not> maxReached (addTab (titleOnly ''Tab 1'') (newLiveTabs ''tabs-container'' None True))
   \<and> has (tabContentMap (addTab (titleOnly ''Tab 1'') (newLiveTabs ''tabs-container'' None True)))
        (tabIdOf (tabTitle (titleOnly ''tab 1!!'')))
   \<and> getTabCount (addTab (titleOnly ''Tab 1'') (newLiveTabs ''tabs-container'' None True)) = 1
   \<and> getTabCount (addTab (titleOnly ''tab 1!!'')
        (addTab (titleOnly ''Tab 1'') (newLiveTabs ''tabs-container'' None True)))
       = getTabCount (addTab (titleOnly ''Tab 1'') (newLiveTabs ''tabs-container'' None True))
   \<and> map el_id (panels (addTab (titleOnly ''tab 1!!'')
        (addTab (titleOnly ''Tab 1'') (newLiveTabs ''tabs-container'' None True))))
       = map el_id (panels (addTab (titleOnly ''Tab 1'') (newLiveTabs ''tabs-container'' None True)))
   \<and> getActiveTab (addTab (titleOnly ''tab 1!!'')
        (addTab (titleOnly ''Tab 1'') (newLiveTabs ''tabs-container'' None True)))
       = tabIdOf (tabTitle (titleOnly ''tab 1!!''))"
proof -
  have h1: "\<not> maxReached (addTab (titleOnly ''Tab 1'') (newLiveTabs ''tabs-container'' None True))"
    by code_simp
  have h2: "has (tabContentMap (addTab (titleOnly ''Tab 1'') (newLiveTabs ''tabs-container'' None True)))
        (tabIdOf (tabTitle (titleOnly ''tab 1!!'')))"
    by code_simp
  have c: "getTabCount (addTab (titleOnly ''Tab 1'') (newLiveTabs ''tabs-container'' None True)) = 1"
    by code_simp
  show ?thesis
    using h1 h2 c addTab_existing_focuses [OF h1 h2] by blast
qed

section \<open>Switching to an id that is not in the store\<close>

text \<open>
  Claim C7, as amended. For every id that is not in the store and is not the active id,
  \<^verbatim>\<open>switchTab(id)\<close> makes it the active id all the same; the map is unchanged and nothing
  is signalled. Showing the target changes nothing provided no element of the document
  carries the id, nor the id \<^verbatim>\<open>undefined\<close> (which the lookup of the missing content id
  asks for): the call then only deactivates the tab opened before and sets the active id.
\<close>

theorem switchTab_absent_id:
  assumes "\<not> has (tabContentMap s) i" and "i \<noteq> openedId s"
  shows "getActiveTab (switchTab i s) = i
       \<and> tabContentMap (switchTab i s) = tabContentMap s
       \<and> signals (switchTab i s) = signals s
       \<and> (getElementById s i = None \<and> getElementById s ''undefined'' = None
            \<longrightarrow> switchTab i s = (deactivateOpened s)\<lparr>openedId := i\<rparr>)"
proof -
  have none: "map_of (tabContentMap s) i = None"
    using assms(1) by (simp add: has_def map_of_eq_None_iff)
  have vis: "switchTab i s = (deactivateOpened s)\<lparr>openedId := i\<rparr>"
    if a: "getElementById s i = None" and u: "getElementById s ''undefined'' = None"
  proof -
    have same: "getElementById (deactivateOpened s) j = None" if "getElementById s j = None" for j
      using that by (simp add: getElementById_None_iff deactivateOpened_ids)
    show ?thesis
      using assms(2) none same [OF a] same [OF u]
      by (simp add: switchTab_def Let_def domString_def modifyElementById_absent)
  qed
  show ?thesis
    using vis by (simp add: getActiveTab_def)
qed

theorem switchTab_absent_id_witness:
  "\<not> has (tabContentMap (tabsABC None)) ''lt-tab-x''
   \<and> ''lt-tab-x'' \<noteq> openedId (tabsABC None)
   \<and> getElementById (tabsABC None) ''lt-tab-x'' = None
   \<and> getElementById (tabsABC None) ''undefined'' = None
   \<and> getActiveTab (switchTab ''lt-tab-x'' (tabsABC None)) = ''lt-tab-x''
   \<and> tabContentMap (switchTab ''lt-tab-x'' (tabsABC None)) = tabContentMap (tabsABC None)
   \<and> switchTab ''lt-tab-x'' (tabsABC None)
       = (deactivateOpened (tabsABC None))\<lparr>openedId := ''lt-tab-x''\<rparr>"
proof -
  have h1: "\<not> has (tabContentMap (tabsABC None)) ''lt-tab-x''"
    by code_simp
  have h2: "''lt-tab-x'' \<noteq> openedId (tabsABC None)"
    by code_simp
  have h3: "getElementById (tabsABC None) ''lt-tab-x'' = None"
    by code_simp
  have h4: "getElementById (tabsABC None) ''undefined'' = None"
    by code_simp
  show ?thesis
    using h1 h2 h3 h4 switchTab_absent_id [OF h1 h2] by blast
qed

text \<open>
  Claim C7 as stated, with the visual step a no-op for every absent id, fails where an
  element of the document carries the id. With the tabs A, B, C the id \<^verbatim>\<open>a-container\<close> is
  not a key and not active, and \<^verbatim>\<open>switchTab('a-container')\<close> finds the content panel of A
  and gives it the class \<^verbatim>\<open>active\<close>; with the id of the parent element,
  \<^verbatim>\<open>tabs-container\<close>, the parent element gets the class.
\<close>

theorem switchTab_absent_id_counterexample:
  "\<not> has (tabContentMap (tabsABC None)) ''a-container''
   \<and> ''a-container'' \<noteq> getActiveTab (tabsABC None)
   \<and> getActiveTab (switchTab ''a-container'' (tabsABC None)) = ''a-container''
   \<and> map el_id (panels (tabsABC None)) = [''a-container'', ''b-container'', ''c-container'']
   \<and> map classList (panels ((deactivateOpened (tabsABC None))\<lparr>openedId := ''a-container''\<rparr>))
       = [[''lt-tab-content''], [''lt-tab-content''], [''lt-tab-content'']]
   \<and> map classList (panels (switchTab ''a-container'' (tabsABC None)))
       = [[''lt-tab-content'', ''active''], [''lt-tab-content''], [''lt-tab-content'']]
   \<and> switchTab ''a-container'' (tabsABC None)
       \<noteq> (deactivateOpened (tabsABC None))\<lparr>openedId := ''a-container''\<rparr>
   \<and> \<not> has (tabContentMap (tabsABC None)) ''tabs-container''
   \<and> ''tabs-container'' \<noteq> getActiveTab (tabsABC None)
   \<and> classList (parentElement (tabsABC None)) = []
   \<and> classList (parentElement (switchTab ''tabs-container'' (tabsABC None))) = [''active'']"
proof -
  have h: "\<not> has (tabContentMap (tabsABC None)) ''a-container''
           \<and> ''a-container'' \<noteq> getActiveTab (tabsABC None)
           \<and> getActiveTab (switchTab ''a-container'' (tabsABC None)) = ''a-container''
           \<and> map el_id (panels (tabsABC None)) = [''a-container'', ''b-container'', ''c-container'']"
    by code_simp
  have before: "map classList (panels ((deactivateOpened (tabsABC None))\<lparr>openedId := ''a-container''\<rparr>))
       = [[''lt-tab-content''], [''lt-tab-content''], [''lt-tab-content'']]"
    by code_simp
  have after: "map classList (panels (switchTab ''a-container'' (tabsABC None)))
       = [[''lt-tab-content'', ''active''], [''lt-tab-content''], [''lt-tab-content'']]"
    by code_simp
  have differ: "switchTab ''a-container'' (tabsABC None)
       \<noteq> (deactivateOpened (tabsABC None))\<lparr>openedId := ''a-container''\<rparr>"
  proof
    assume "switchTab ''a-container'' (tabsABC None)
              = (deactivateOpened (tabsABC None))\<lparr>openedId := ''a-container''\<rparr>"
    then have "map classList (panels (switchTab ''a-container'' (tabsABC None)))
       = map classList (panels ((deactivateOpened (tabsABC None))\<lparr>openedId := ''a-container''\<rparr>))"
      by (rule arg_cong)
    with before after show False
      by simp
  qed
  have parent: "\<not> has (tabContentMap (tabsABC None)) ''tabs-container''
   \<and> ''tabs-container'' \<noteq> getActiveTab (tabsABC None)
   \<and> classList (parentElement (tabsABC None)) = []
   \<and> classList (parentElement (switchTab ''tabs-container'' (tabsABC None))) = [''active'']"
    by code_simp
  show ?thesis
    using h before after differ parent by blast
qed

section \<open>Focus after removing the active tab\<close>

lemma indexOf_nonneg_iff: "0 \<le> indexOf xs x \<longleftrightarrow> x \<in> set xs"
  by (induction xs) (auto simp: Let_def)

lemma indexOf_split:
  "x \<notin> set before \<Longrightarrow> indexOf (before @ x # after) x = int (length before)"
  by (induction before) (auto simp: Let_def)

lemma at_next: "at (before @ x # n # rest) (int (length before) + 1) = Some n"
  by (simp add: at_def nth_append nat_add_distrib)

lemma at_previous: "before \<noteq> [] \<Longrightarrow> at (before @ [x]) (int (length before) - 1) = Some (last before)"
  by (cases before rule: rev_cases) (simp_all add: at_def nth_append nat_diff_distrib')

lemma delete_split_keys:
  assumes "map fst m = before @ k # after" and "distinct (map fst m)"
  shows "map fst (AList.delete k m) = before @ after"
proof -
  from assms have "k \<notin> set before" and "k \<notin> set after"
    by auto
  then show ?thesis
    using assms(1) by (simp add: delete_keys)
qed

lemma removeTab_tabContentMap:
  "tabContentMap (removeTab idTab s) = AList.delete idTab (tabContentMap s)"
  by (simp add: removeTab_def Let_def has_def split: option.splits)

text \<open>
  Claim C2. In every store with at least two tabs, removing the active tab moves the focus
  to the tab that followed it in the order before the deletion, and to the one before it
  when the removed tab was the last. The keys of a \<^verbatim>\<open>Map\<close> are distinct, and every key
  the class stores starts with \<^verbatim>\<open>lt-tab-\<close>, so none is the empty string (the test
  \<^verbatim>\<open>if (switchToTabId)\<close> needs that). The order of the remaining tabs is kept.
\<close>

theorem removeTab_active_focus:
  assumes keys: "getAllTabs s = before @ idTab # after"
    and dist: "distinct (getAllTabs s)"
    and truthy: "[] \<notin> set (getAllTabs s)"
    and opened: "getActiveTab s = idTab"
    and two: "2 \<le> getTabCount s"
  shows "getActiveTab (removeTab idTab s) = (if after \<noteq> [] then hd after else last before)
       \<and> getAllTabs (removeTab idTab s) = before @ after"
proof -
  let ?m = "tabContentMap s"
  have k: "map fst ?m = before @ idTab # after"
    using keys by (simp add: getAllTabs_def)
  have d: "distinct (map fst ?m)"
    using dist by (simp add: getAllTabs_def)
  have member: "has ?m idTab"
    using k by (simp add: has_def flip: set_map)
  have nb: "idTab \<notin> set before"
    using d k by auto
  have gone: "\<not> has (AList.delete idTab ?m) idTab"
    by (simp add: has_def delete_notin_dom)
  have idx: "indexOf (map fst ?m) idTab = int (length before)"
    using nb k by (simp add: indexOf_split)
  have len: "length ?m = length before + 1 + length after"
    using arg_cong [OF k, of length] by simp
  have rest: "map fst (AList.delete idTab ?m) = before @ after"
    using k d by (rule delete_split_keys)
  have active: "openedId (removeTab idTab s) = (if after \<noteq> [] then hd after else last before)"
  proof (cases after)
    case Nil
    with two len have ne: "before \<noteq> []"
      by (auto simp: getTabCount_def)
    have "last before \<in> set (getAllTabs s)"
      using ne keys by simp
    then have t: "last before \<noteq> []"
      using truthy by auto
    have "at (map fst ?m) (int (length before) - 1) = Some (last before)"
      using k Nil ne by (simp add: at_previous)
    then show ?thesis
      using member gone idx len Nil t opened
      by (simp add: removeTab_def Let_def getActiveTab_def)
  next
    case (Cons n rest)
    have "n \<in> set (getAllTabs s)"
      using keys Cons by simp
    then have t: "n \<noteq> []"
      using truthy by auto
    have "at (map fst ?m) (int (length before) + 1) = Some n"
      using k Cons by (simp add: at_next)
    then show ?thesis
      using member gone idx len Cons t opened
      by (simp add: removeTab_def Let_def getActiveTab_def)
  qed
  have order: "map fst (tabContentMap (removeTab idTab s)) = before @ after"
    using rest by (simp add: removeTab_tabContentMap)
  show ?thesis
    using active order by (simp add: getActiveTab_def getAllTabs_def)
qed

text \<open>
  The instances of the specification: with tabs A, B, C and C active, removing C opens B;
  with A active, removing A opens B.
\<close>

theorem removeTab_active_focus_witness:
  "getAllTabs (tabsABC None) = [''lt-tab-a'', ''lt-tab-b''] @ ''lt-tab-c'' # []
   \<and> distinct (getAllTabs (tabsABC None))
   \<and> [] \<notin> set (getAllTabs (tabsABC None))
   \<and> getActiveTab (tabsABC None) = ''lt-tab-c''
   \<and> 2 \<le> getTabCount (tabsABC None)
   \<and> getActiveTab (removeTab ''lt-tab-c'' (tabsABC None)) = ''lt-tab-b''
   \<and> getAllTabs (switchTab ''lt-tab-a'' (tabsABC None)) = [] @ ''lt-tab-a'' # [''lt-tab-b'', ''lt-tab-c'']
   \<and> getActiveTab (switchTab ''lt-tab-a'' (tabsABC None)) = ''lt-tab-a''
   \<and> getActiveTab (removeTab ''lt-tab-a'' (switchTab ''lt-tab-a'' (tabsABC None))) = ''lt-tab-b''"
proof -
  have k: "getAllTabs (tabsABC None) = [''lt-tab-a'', ''lt-tab-b''] @ ''lt-tab-c'' # []"
    by code_simp
  have d: "distinct (getAllTabs (tabsABC None))"
    by code_simp
  have t: "[] \<notin> set (getAllTabs (tabsABC None))"
    by code_simp
  have o: "getActiveTab (tabsABC None) = ''lt-tab-c''"
    by code_simp
  have n: "2 \<le> getTabCount (tabsABC None)"
    by code_simp
  have k': "getAllTabs (switchTab ''lt-tab-a'' (tabsABC None))
              = [] @ ''lt-tab-a'' # [''lt-tab-b'', ''lt-tab-c'']"
    by code_simp
  have d': "distinct (getAllTabs (switchTab ''lt-tab-a'' (tabsABC None)))"
    by code_simp
  have t': "[] \<notin> set (getAllTabs (switchTab ''lt-tab-a'' (tabsABC None)))"
    by code_simp
  have o': "getActiveTab (switchTab ''lt-tab-a'' (tabsABC None)) = ''lt-tab-a''"
    by code_simp
  have n': "2 \<le> getTabCount (switchTab ''lt-tab-a'' (tabsABC None))"
    by code_simp
  have last_case: "getActiveTab (removeTab ''lt-tab-c'' (tabsABC None)) = ''lt-tab-b''"
    using removeTab_active_focus [OF k d t o n] by simp
  have first_case:
    "getActiveTab (removeTab ''lt-tab-a'' (switchTab ''lt-tab-a'' (tabsABC None))) = ''lt-tab-b''"
    using removeTab_active_focus [OF k' d' t' o' n'] by simp
  show ?thesis
    using k d t o n k' o' last_case first_case by blast
qed

section \<open>Rebuilding the map from the rendered order\<close>

lemma rebuild_foldl:
  assumes "distinct ids" and "set ids \<inter> fst ` set acc = {}" and "[] \<notin> snd ` set m"
  shows "foldl (\<lambda>newOrder tabId.
              case map_of m tabId of
                None \<Rightarrow> newOrder
              | Some contentId \<Rightarrow>
                  if contentId \<noteq> [] then AList.update tabId contentId newOrder else newOrder)
           acc ids
         = acc @ map (\<lambda>k. (k, the (map_of m k))) (filter (has m) ids)"
  using assms
proof (induction ids arbitrary: acc)
  case Nil
  then show ?case by simp
next
  case (Cons k ids)
  show ?case
  proof (cases "map_of m k")
    case None
    then have "\<not> has m k"
      by (simp add: has_def map_of_eq_None_iff)
    with None Cons show ?thesis
      by simp
  next
    case (Some c)
    then have "(k, c) \<in> set m"
      by (rule map_of_SomeD)
    then have c: "c \<noteq> []" and hk: "has m k"
      using Cons.prems(3) by (force simp: has_def)+
    have fresh: "k \<notin> fst ` set acc"
      using Cons.prems(2) by auto
    have disj: "set ids \<inter> fst ` set (acc @ [(k, c)]) = {}"
      using Cons.prems(1,2) by auto
    have "distinct ids"
      using Cons.prems(1) by simp
    from Cons.IH [OF this disj Cons.prems(3)] Some c hk fresh show ?thesis
      by (simp add: update_fresh)
  qed
qed

lemma rebuildOrder_eq:
  assumes "distinct ids" and "[] \<notin> snd ` set m"
  shows "rebuildOrder m ids = map (\<lambda>k. (k, the (map_of m k))) (filter (has m) ids)"
  using rebuild_foldl [OF assms(1) _ assms(2), of "[]"] by (simp add: rebuildOrder_def)

lemma map_of_rebuilt:
  "map_of (map (\<lambda>k. (k, the (map_of m k))) (filter (has m) ids)) = map_of m |` set ids"
proof
  fix k
  show "map_of (map (\<lambda>k. (k, the (map_of m k))) (filter (has m) ids)) k = (map_of m |` set ids) k"
  proof (cases "k \<in> set ids \<and> has m k")
    case True
    then have "map_of m k \<noteq> None"
      by (simp add: has_def map_of_eq_None_iff)
    then obtain c where "map_of m k = Some c"
      by blast
    with True show ?thesis
      by (simp add: map_of_map_restrict restrict_map_def)
  next
    case False
    then have "k \<in> set ids \<Longrightarrow> map_of m k = None"
      by (simp add: has_def map_of_eq_None_iff)
    with False show ?thesis
      by (auto simp: map_of_map_restrict restrict_map_def)
  qed
qed

text \<open>
  Claim C6. \<^verbatim>\<open>reorderingMap\<close> reads the ids of the navbar's children from left to right.
  The new map has as keys, in that order, exactly the rendered ids that were keys before;
  each keeps its content id; rendered ids that were no key and keys that are not rendered
  are dropped. Hence, when every rendered tab is in the store, the keys in order are the
  rendered order. The rendered ids are distinct (one tab element per key) and the stored
  content ids are not empty (each ends in \<^verbatim>\<open>-container\<close>).
\<close>

theorem reorderingMap_mirrors_rendered_order:
  assumes "distinct (map el_id (navChildren s))"
    and "[] \<notin> snd ` set (tabContentMap s)"
  shows "getAllTabs (reorderingMap s) = filter (has (tabContentMap s)) (map el_id (navChildren s))
       \<and> map_of (tabContentMap (reorderingMap s))
           = map_of (tabContentMap s) |` set (map el_id (navChildren s))
       \<and> (set (map el_id (navChildren s)) \<subseteq> set (getAllTabs s)
            \<longrightarrow> getAllTabs (reorderingMap s) = map el_id (navChildren s))"
proof -
  let ?m = "tabContentMap s" and ?ids = "map el_id (navChildren s)"
  have eq: "tabContentMap (reorderingMap s)
              = map (\<lambda>k. (k, the (map_of ?m k))) (filter (has ?m) ?ids)"
    using assms by (simp add: reorderingMap_def rebuildOrder_eq)
  have keys: "getAllTabs (reorderingMap s) = filter (has ?m) ?ids"
    unfolding getAllTabs_def eq by (simp add: comp_def)
  have vals: "map_of (tabContentMap (reorderingMap s)) = map_of ?m |` set ?ids"
    unfolding eq by (rule map_of_rebuilt)
  have all: "getAllTabs (reorderingMap s) = ?ids" if "set ?ids \<subseteq> set (getAllTabs s)"
  proof -
    from that have "\<forall>k\<in>set ?ids. has ?m k"
      by (auto simp: has_def getAllTabs_def)
    then have "filter (has ?m) ?ids = ?ids"
      by (simp add: filter_id_conv)
    with keys show ?thesis
      by simp
  qed
  show ?thesis
    using keys vals all by blast
qed

text \<open>
  An instance: the three tabs A, B, C rendered in the order C, B, A.
\<close>

theorem reorderingMap_mirrors_rendered_order_witness:
  "distinct (map el_id (navChildren ((tabsABC None)\<lparr>navbarDiv := Some (rev (navChildren (tabsABC None)))\<rparr>)))
   \<and> [] \<notin> snd ` set (tabContentMap ((tabsABC None)\<lparr>navbarDiv := Some (rev (navChildren (tabsABC None)))\<rparr>))
   \<and> set (map el_id (navChildren ((tabsABC None)\<lparr>navbarDiv := Some (rev (navChildren (tabsABC None)))\<rparr>)))
        \<subseteq> set (getAllTabs ((tabsABC None)\<lparr>navbarDiv := Some (rev (navChildren (tabsABC None)))\<rparr>))
   \<and> map el_id (navChildren ((tabsABC None)\<lparr>navbarDiv := Some (rev (navChildren (tabsABC None)))\<rparr>))
        = [''lt-tab-c'', ''lt-tab-b'', ''lt-tab-a'']
   \<and> getAllTabs ((tabsABC None)\<lparr>navbarDiv := Some (rev (navChildren (tabsABC None)))\<rparr>)
        = [''lt-tab-a'', ''lt-tab-b'', ''lt-tab-c'']
   \<and> getAllTabs (reorderingMap ((tabsABC None)\<lparr>navbarDiv := Some (rev (navChildren (tabsABC None)))\<rparr>))
        = map el_id (navChildren ((tabsABC None)\<lparr>navbarDiv := Some (rev (navChildren (tabsABC None)))\<rparr>))"
proof -
  let ?s = "(tabsABC None)\<lparr>navbarDiv := Some (rev (navChildren (tabsABC None)))\<rparr>"
  have h1: "distinct (map el_id (navChildren ?s))"
    by code_simp
  have h2: "[] \<notin> snd ` set (tabContentMap ?s)"
    by code_simp
  have h3: "set (map el_id (navChildren ?s)) \<subseteq> set (getAllTabs ?s)"
    by code_simp
  have r: "map el_id (navChildren ?s) = [''lt-tab-c'', ''lt-tab-b'', ''lt-tab-a'']"
    by code_simp
  have k: "getAllTabs ?s = [''lt-tab-a'', ''lt-tab-b'', ''lt-tab-c'']"
    by code_simp
  show ?thesis
    using h1 h2 h3 r k reorderingMap_mirrors_rendered_order [OF h1 h2] by blast
qed

section \<open>The active id is never cleared\<close>

text \<open>
  \<^verbatim>\<open>removeTab\<close> takes \<^verbatim>\<open>tabsArray\<close> before the deletion, so the array holds the removed
  id and its length is never \<open>0\<close>: the branch that clears \<^verbatim>\<open>openedId\<close> is dead. When the
  only tab is removed, the index of the neighbour is \<open>-1\<close>, the array read is
  \<^verbatim>\<open>undefined\<close> and the active id stays what it was.
\<close>

lemma removeTab_only_tab:
  assumes "map fst (tabContentMap s) = [idTab]"
  shows "tabContentMap (removeTab idTab s) = [] \<and> openedId (removeTab idTab s) = openedId s"
proof -
  obtain c where m: "tabContentMap s = [(idTab, c)]"
    using assms by (cases "tabContentMap s") auto
  then show ?thesis
    by (simp add: removeTab_def Let_def has_def at_def)
qed

lemma removeTab_openedId_nonempty:
  "openedId s \<noteq> [] \<Longrightarrow> openedId (removeTab idTab s) \<noteq> []"
  by (simp add: removeTab_def Let_def has_def split: option.splits)

lemma forEachRemoveTab_openedId_nonempty:
  "openedId s \<noteq> [] \<Longrightarrow> openedId (forEachRemoveTab ks s) \<noteq> []"
  by (induction ks arbitrary: s) (simp_all add: removeTab_openedId_nonempty)

lemma removeAllTabs_openedId_nonempty:
  "openedId s \<noteq> [] \<Longrightarrow> getActiveTab (removeAllTabs s) \<noteq> []"
  by (simp add: removeAllTabs_def getActiveTab_def forEachRemoveTab_openedId_nonempty)

lemma delete_dom: "fst ` set (AList.delete k m) = fst ` set m - {k}"
  by (induction m) auto

lemma forEachRemoveTab_keys:
  "fst ` set (tabContentMap (forEachRemoveTab ks s)) = fst ` set (tabContentMap s) - set ks"
proof (induction ks arbitrary: s)
  case Nil
  then show ?case by simp
next
  case (Cons k ks)
  have "fst ` set (tabContentMap (if has (tabContentMap s) k then removeTab k s else s))
          = fst ` set (tabContentMap s) - {k}"
    by (simp add: removeTab_tabContentMap delete_dom has_def)
  with Cons.IH show ?case
    by auto
qed

lemma removeAllTabs_store_empty: "getTabCount (removeAllTabs s) = 0"
  using forEachRemoveTab_keys [of "map fst (tabContentMap s)" s]
  by (simp add: removeAllTabs_def getTabCount_def)

text \<open>
  Claim C1 says that after removing the only tab the active id is the empty string. The
  code leaves it: a fresh instance with the single tab \<^verbatim>\<open>lt-tab-a\<close>, which is active,
  has after \<^verbatim>\<open>removeTab('lt-tab-a')\<close> an empty store and the active id \<^verbatim>\<open>lt-tab-a\<close>.
\<close>

theorem removeTab_last_tab_keeps_openedId:
  "getAllTabs (addTab (titleOnly ''A'') (newLiveTabs ''tabs-container'' None True)) = [''lt-tab-a'']
   \<and> getActiveTab (addTab (titleOnly ''A'') (newLiveTabs ''tabs-container'' None True)) = ''lt-tab-a''
   \<and> getTabCount (removeTab ''lt-tab-a''
        (addTab (titleOnly ''A'') (newLiveTabs ''tabs-container'' None True))) = 0
   \<and> getActiveTab (removeTab ''lt-tab-a''
        (addTab (titleOnly ''A'') (newLiveTabs ''tabs-container'' None True))) = ''lt-tab-a''"
  by code_simp

text \<open>
  Claim C5 says that after \<^verbatim>\<open>removeAllTabs()\<close> the store is empty and the active id is the
  empty string. The store is empty, the active id is not cleared: with the tabs A, B, C it
  is \<^verbatim>\<open>lt-tab-c\<close> afterwards, and a second \<^verbatim>\<open>removeAllTabs()\<close>, on the store that is now
  empty, leaves it so.
\<close>

theorem removeAllTabs_keeps_openedId:
  "getAllTabs (tabsABC None) = [''lt-tab-a'', ''lt-tab-b'', ''lt-tab-c'']
   \<and> getTabCount (removeAllTabs (tabsABC None)) = 0
   \<and> getActiveTab (removeAllTabs (tabsABC None)) = ''lt-tab-c''
   \<and> getTabCount (removeAllTabs (removeAllTabs (tabsABC None))) = 0
   \<and> getActiveTab (removeAllTabs (removeAllTabs (tabsABC None))) = ''lt-tab-c''"
  by code_simp

section \<open>The stores the class builds\<close>

text \<open>
  Every store the class builds is well formed: distinct keys, each \<^verbatim>\<open>lt-tab-\<close> followed by
  a sanitized title, each content id that title followed by \<^verbatim>\<open>-container\<close>. Keys and
  content ids are therefore never empty strings.
\<close>

lemma wfStore_empty: "wfStore []"
  by (simp add: wfStore_def)

lemma wfEntry_addTab: "wfEntry (tabIdOf t, idContentOf t)"
  by (simp add: wfEntry_def tabIdOf_def idContentOf_def)

lemma wfStore_truthy: "wfStore m \<Longrightarrow> distinct (map fst m) \<and> [] \<notin> fst ` set m \<and> [] \<notin> snd ` set m"
  by (auto simp: wfStore_def wfEntry_def list_all_iff)

lemma wfStore_delete:
  assumes "wfStore m"
  shows "wfStore (AList.delete k m)"
proof -
  have "distinct (map fst (AList.delete k m))"
    using assms by (simp add: wfStore_def distinct_delete)
  moreover have "set (AList.delete k m) \<subseteq> set m"
    by (auto simp: AList.delete_eq)
  ultimately show ?thesis
    using assms by (auto simp: wfStore_def list_all_iff)
qed

lemma wfStore_removeTab: "wfStore (tabContentMap s) \<Longrightarrow> wfStore (tabContentMap (removeTab k s))"
  by (simp add: removeTab_tabContentMap wfStore_delete)

lemma wfStore_switchTab: "wfStore (tabContentMap s) \<Longrightarrow> wfStore (tabContentMap (switchTab i s))"
  by simp

lemma wfStore_forEachRemoveTab:
  "wfStore (tabContentMap s) \<Longrightarrow> wfStore (tabContentMap (forEachRemoveTab ks s))"
  by (induction ks arbitrary: s) (simp_all add: wfStore_removeTab)

lemma wfStore_removeAllTabs:
  "wfStore (tabContentMap s) \<Longrightarrow> wfStore (tabContentMap (removeAllTabs s))"
  by (simp add: removeAllTabs_def wfStore_forEachRemoveTab)

lemma wfStore_newLiveTabs: "wfStore (tabContentMap (newLiveTabs parent maxTabs found))"
  by (simp add: newLiveTabs_def Let_def wfStore_empty)

lemma wfStore_addTab:
  assumes "wfStore (tabContentMap s)" and "keepsStore (addContent params)"
  shows "wfStore (tabContentMap (addTab params s))"
proof (cases "maxReached s \<or> has (tabContentMap s) (tabIdOf (tabTitle params))")
  case True
  with assms(1) show ?thesis
    by (auto simp: addTab_def Let_def)
next
  case False
  then have fresh: "tabIdOf (tabTitle params) \<notin> fst ` set (tabContentMap s)"
    by (simp add: has_def)
  have "tabContentMap (addTab params s)
          = tabContentMap s @ [(tabIdOf (tabTitle params), idContentOf (tabTitle params))]"
    using False assms(2) fresh
    by (simp add: addTab_def Let_def keepsStore_def update_fresh split: option.splits)
  with assms(1) fresh show ?thesis
    by (simp add: wfStore_def wfEntry_addTab)
qed

lemma wfStore_reorderingMap:
  assumes "wfStore (tabContentMap s)" and "distinct (map el_id (navChildren s))"
  shows "wfStore (tabContentMap (reorderingMap s))"
proof -
  let ?m = "tabContentMap s" and ?ids = "map el_id (navChildren s)"
  have t: "[] \<notin> snd ` set ?m"
    using assms(1) by (simp add: wfStore_truthy)
  have eq: "tabContentMap (reorderingMap s)
              = map (\<lambda>k. (k, the (map_of ?m k))) (filter (has ?m) ?ids)"
    using assms(2) t by (simp add: reorderingMap_def rebuildOrder_eq)
  have sub: "set (tabContentMap (reorderingMap s)) \<subseteq> set ?m"
    unfolding eq by (auto simp: has_def) (metis map_of_eq_None_iff map_of_SomeD option.collapse image_eqI fst_conv)
  have "distinct (map fst (tabContentMap (reorderingMap s)))"
    unfolding eq using assms(2) by (simp add: comp_def distinct_map_filter)
  with sub assms(1) show ?thesis
    by (auto simp: wfStore_def list_all_iff)
qed

lemma replaceFirst_prefix: "pat \<noteq> [] \<Longrightarrow> replaceFirst pat (pat @ x) = x"
  by (cases pat) simp_all

lemma createTabContent_panel_id:
  "getElementById s (parentDiv s) = Some p \<Longrightarrow>
   map el_id (panels (createTabContent (tabIdOf t) s)) = map el_id (panels s) @ [idContentOf t]"
  by (simp add: createTabContent_def tabIdOf_def idContentOf_def)

end
